theory Spec2Isabelle
  imports Complex_Main
begin

section \<open>Data model\<close>

text \<open>
  The three pricing strategies of \<^verbatim>\<open>src/models\<close> are Python classes whose instances hold
  a base price, some numeric parameters and two dictionaries keyed by the integer id of a
  parking space: \<^verbatim>\<open>current_prices\<close> and \<^verbatim>\<open>price_history\<close>.

  Python floats are modelled as real numbers: arithmetic is exact, there is no rounding,
  no overflow, and neither infinities nor NaN. A dictionary is a map; the \<^verbatim>\<open>locations\<close>
  dictionary, whose iteration order the competitor scan observes, is an association list
  in insertion order. An exception is a value of \<open>py_error\<close>; a method that mutates
  \<^verbatim>\<open>self\<close> returns its result together with the object after the call, also when it raises.
  The \<^verbatim>\<open>timestamp\<close> argument of the update methods is never read and is left out.
\<close>

datatype py_error = KeyError

record location =
  latitude :: real
  longitude :: real

text \<open>The dictionaries built by \<^verbatim>\<open>find_competitors\<close> and \<^verbatim>\<open>suggest_rerouting\<close>.\<close>

record competitor =
  comp_space_id :: int
  comp_distance :: real
  comp_price :: real

record suggestion =
  sugg_space_id :: int
  sugg_distance_km :: real
  sugg_price :: real
  sugg_savings :: real

text \<open>
  The attributes of the three classes. \<^verbatim>\<open>DemandBasedModel\<close> has every attribute of
  \<^verbatim>\<open>BaselineLinearModel\<close> and \<^verbatim>\<open>CompetitivePricingModel\<close> every attribute of
  \<^verbatim>\<open>DemandBasedModel\<close>, under the same names, so the records extend one another; the
  classes themselves are unrelated, and each function below is typed for its own class.
\<close>

record BaselineLinearModel =
  base_price :: real
  alpha :: real
  current_prices :: "int \<rightharpoonup> real"
  price_history :: "int \<rightharpoonup> real list"

record DemandBasedModel = BaselineLinearModel +
  beta :: real
  gamma :: real
  delta :: real
  epsilon :: real
  lambda_param :: real

record CompetitivePricingModel = DemandBasedModel +
  locations :: "(int \<times> location) list"
  competition_radius :: real
  competition_weight :: real
  demand_weight :: real

section \<open>Constructors\<close>

definition BaselineLinearModel_init :: "real \<Rightarrow> real \<Rightarrow> BaselineLinearModel" where
  "BaselineLinearModel_init b a =
     \<lparr>base_price = b, alpha = a, current_prices = Map.empty, price_history = Map.empty\<rparr>"

definition DemandBasedModel_init :: "real \<Rightarrow> DemandBasedModel" where
  "DemandBasedModel_init b =
     \<lparr>base_price = b, alpha = 0.6, current_prices = Map.empty, price_history = Map.empty,
      beta = 0.3, gamma = 0.2, delta = 0.4, epsilon = 0.1, lambda_param = 0.8\<rparr>"

definition CompetitivePricingModel_init :: "real \<Rightarrow> CompetitivePricingModel" where
  "CompetitivePricingModel_init b =
     \<lparr>base_price = b, alpha = 0.6, current_prices = Map.empty, price_history = Map.empty,
      beta = 0.3, gamma = 0.2, delta = 0.4, epsilon = 0.1, lambda_param = 0.8,
      locations = [], competition_radius = 0.005, competition_weight = 0.3,
      demand_weight = 0.7\<rparr>"

section \<open>The price ledger code shared by the three classes\<close>

text \<open>
  The following methods and statement groups occur verbatim in each of the three classes;
  they are written once, for any of the three records.

  \<^verbatim>\<open>get_current_price\<close> is \<^verbatim>\<open>self.current_prices.get(space_id, self.base_price)\<close> and
  \<^verbatim>\<open>get_price_history\<close> is \<^verbatim>\<open>self.price_history.get(space_id, [self.base_price])\<close>.
\<close>

definition get_current_price :: "'a BaselineLinearModel_scheme \<Rightarrow> int \<Rightarrow> real" where
  "get_current_price m sid =
     (case current_prices m sid of None \<Rightarrow> base_price m | Some p \<Rightarrow> p)"

definition get_price_history :: "'a BaselineLinearModel_scheme \<Rightarrow> int \<Rightarrow> real list" where
  "get_price_history m sid =
     (case price_history m sid of None \<Rightarrow> [base_price m] | Some h \<Rightarrow> h)"

text \<open>The loop of \<^verbatim>\<open>initialize_prices\<close> over \<^verbatim>\<open>space_ids\<close>.\<close>

fun initialize_prices ::
  "'a BaselineLinearModel_scheme \<Rightarrow> int list \<Rightarrow> 'a BaselineLinearModel_scheme" where
  "initialize_prices m [] = m"
| "initialize_prices m (sid # space_ids) =
     initialize_prices
       (m\<lparr>current_prices := (current_prices m)(sid \<mapsto> base_price m),
          price_history := (price_history m)(sid \<mapsto> [base_price m])\<rparr>) space_ids"

text \<open>
  The first statement of every \<^verbatim>\<open>update_price\<close>:
  \<^verbatim>\<open>if space_id not in self.current_prices:\<close> seed both dictionaries with the base price.
\<close>

definition vivify :: "'a BaselineLinearModel_scheme \<Rightarrow> int \<Rightarrow> 'a BaselineLinearModel_scheme" where
  "vivify m sid =
     (case current_prices m sid of
        Some p \<Rightarrow> m
      | None \<Rightarrow> m\<lparr>current_prices := (current_prices m)(sid \<mapsto> base_price m),
                  price_history := (price_history m)(sid \<mapsto> [base_price m])\<rparr>)"

text \<open>
  The last three statements of every \<^verbatim>\<open>update_price\<close>: store the price, append it to the
  history, return it. \<^verbatim>\<open>self.price_history[space_id].append\<close> raises \<^verbatim>\<open>KeyError\<close> when the
  history has no entry for the unit, after the current price has been stored.
\<close>

definition record_price ::
  "'a BaselineLinearModel_scheme \<Rightarrow> int \<Rightarrow> real \<Rightarrow>
     (py_error + real) \<times> 'a BaselineLinearModel_scheme" where
  "record_price m sid new_price =
     (let m' = m\<lparr>current_prices := (current_prices m)(sid \<mapsto> new_price)\<rparr>
      in case price_history m' sid of
           None \<Rightarrow> (Inl KeyError, m')
         | Some h \<Rightarrow> (Inr new_price, m'\<lparr>price_history := (price_history m')(sid \<mapsto> h @ [new_price])\<rparr>))"

section \<open>BaselineLinearModel\<close>

definition baseline_update_price ::
  "BaselineLinearModel \<Rightarrow> int \<Rightarrow> real \<Rightarrow> (py_error + real) \<times> BaselineLinearModel" where
  "baseline_update_price m sid occupancy_rate =
     (let m1 = vivify m sid
      in case current_prices m1 sid of
           None \<Rightarrow> (Inl KeyError, m1)
         | Some current_price \<Rightarrow>
             let price_change = alpha m1 * occupancy_rate;
                 new_price = current_price + price_change;
                 min_price = base_price m1 * 0.5;
                 max_price = base_price m1 * 2.0;
                 new_price =
                   (if new_price < min_price then min_price + (new_price - min_price) * 0.1
                    else if new_price > max_price then max_price - (new_price - max_price) * 0.1
                    else new_price);
                 new_price = max min_price (min new_price max_price)
             in record_price m1 sid new_price)"

section \<open>DemandBasedModel\<close>

definition demand_calculate_demand ::
  "DemandBasedModel \<Rightarrow> real \<Rightarrow> int \<Rightarrow> int \<Rightarrow> bool \<Rightarrow> real \<Rightarrow> real" where
  "demand_calculate_demand m occupancy_rate queue_length traffic_level is_special_day vehicle_weight =
     (let normalized_queue = min (real_of_int queue_length / 20.0) 1.0;
          normalized_traffic = (real_of_int traffic_level - 1) / 9.0;
          special_day_factor = (if is_special_day then 1.0 else 0.0)
      in alpha m * occupancy_rate + beta m * normalized_queue - gamma m * normalized_traffic
         + delta m * special_day_factor + epsilon m * vehicle_weight)"

definition normalize_demand :: "real \<Rightarrow> real" where
  "normalize_demand demand = tanh demand"

definition demand_update_price ::
  "DemandBasedModel \<Rightarrow> int \<Rightarrow> real \<Rightarrow> int \<Rightarrow> int \<Rightarrow> bool \<Rightarrow> real \<Rightarrow>
     (py_error + real) \<times> DemandBasedModel" where
  "demand_update_price m sid occupancy_rate queue_length traffic_level is_special_day vehicle_weight =
     (let m1 = vivify m sid;
          demand = demand_calculate_demand m1 occupancy_rate queue_length traffic_level
                     is_special_day vehicle_weight;
          normalized_demand = normalize_demand demand;
          new_price = base_price m1 * (1 + lambda_param m1 * normalized_demand);
          new_price = max (base_price m1 * 0.5) (min new_price (base_price m1 * 2.0))
      in record_price m1 sid new_price)"

section \<open>CompetitivePricingModel\<close>

definition competitive_initialize_prices ::
  "CompetitivePricingModel \<Rightarrow> int list \<Rightarrow> (int \<times> location) list \<Rightarrow> CompetitivePricingModel" where
  "competitive_initialize_prices m space_ids locations_dict =
     (initialize_prices m space_ids)\<lparr>locations := locations_dict\<rparr>"

definition calculate_distance :: "real \<Rightarrow> real \<Rightarrow> real \<Rightarrow> real \<Rightarrow> real" where
  "calculate_distance lat1 lon1 lat2 lon2 = sqrt ((lat1 - lat2)\<^sup>2 + (lon1 - lon2)\<^sup>2)"

text \<open>
  The loop of \<^verbatim>\<open>find_competitors\<close> over \<^verbatim>\<open>self.locations.items()\<close>; the result is the list
  \<^verbatim>\<open>competitors\<close> in the order of the appends.
\<close>

fun scan_locations ::
  "CompetitivePricingModel \<Rightarrow> int \<Rightarrow> location \<Rightarrow> (int \<times> location) list \<Rightarrow> competitor list" where
  "scan_locations m sid current_location [] = []"
| "scan_locations m sid current_location ((other_space_id, other_location) # rest) =
     (if other_space_id = sid then scan_locations m sid current_location rest
      else
        let distance = calculate_distance (latitude current_location) (longitude current_location)
                         (latitude other_location) (longitude other_location)
        in if distance \<le> competition_radius m
           then \<lparr>comp_space_id = other_space_id, comp_distance = distance,
                  comp_price = get_current_price m other_space_id\<rparr>
                # scan_locations m sid current_location rest
           else scan_locations m sid current_location rest)"

text \<open>Python's \<^verbatim>\<open>sorted\<close> is stable, as \<open>sort_key\<close> is.\<close>

definition find_competitors :: "CompetitivePricingModel \<Rightarrow> int \<Rightarrow> competitor list" where
  "find_competitors m sid =
     (case map_of (locations m) sid of
        None \<Rightarrow> []
      | Some current_location \<Rightarrow>
          sort_key comp_distance (scan_locations m sid current_location (locations m)))"

definition competitive_calculate_demand ::
  "CompetitivePricingModel \<Rightarrow> real \<Rightarrow> int \<Rightarrow> int \<Rightarrow> bool \<Rightarrow> real \<Rightarrow> real" where
  "competitive_calculate_demand m occupancy_rate queue_length traffic_level is_special_day vehicle_weight =
     (let normalized_queue = min (real_of_int queue_length / 20.0) 1.0;
          normalized_traffic = (real_of_int traffic_level - 1) / 9.0;
          special_day_factor = (if is_special_day then 1.0 else 0.0);
          demand = alpha m * occupancy_rate + beta m * normalized_queue
                   - gamma m * normalized_traffic + delta m * special_day_factor
                   + epsilon m * vehicle_weight
      in tanh demand)"

text \<open>
  \<^verbatim>\<open>np.mean\<close> of a non-empty list is its sum divided by its length. In the last branch
  numpy divides by the current price; when that is zero numpy yields an infinity or NaN,
  which the reals do not have (the model's quotient is then 0).
\<close>

definition calculate_competitive_adjustment ::
  "CompetitivePricingModel \<Rightarrow> int \<Rightarrow> int \<Rightarrow> int \<Rightarrow> real" where
  "calculate_competitive_adjustment m sid occupancy capacity =
     (let competitors = find_competitors m sid
      in if competitors = [] then 0.0
         else
           let avg_price = sum_list (map comp_price competitors) / real (length competitors);
               current_price = get_current_price m sid
           in if occupancy \<ge> capacity
              then (if avg_price < current_price then - 0.1 else 0.05)
              else
                let price_ratio = avg_price / current_price
                in (price_ratio - 1) * 0.2)"

definition competitive_update_price ::
  "CompetitivePricingModel \<Rightarrow> int \<Rightarrow> real \<Rightarrow> int \<Rightarrow> int \<Rightarrow> bool \<Rightarrow> real \<Rightarrow> int \<Rightarrow> int \<Rightarrow>
     (py_error + real) \<times> CompetitivePricingModel" where
  "competitive_update_price m sid occupancy_rate queue_length traffic_level is_special_day
       vehicle_weight occupancy capacity =
     (let m1 = vivify m sid;
          demand = competitive_calculate_demand m1 occupancy_rate queue_length traffic_level
                     is_special_day vehicle_weight;
          demand_price = base_price m1 * (1 + lambda_param m1 * demand);
          adjustment = calculate_competitive_adjustment m1 sid occupancy capacity
      in case current_prices m1 sid of
           None \<Rightarrow> (Inl KeyError, m1)
         | Some current_price \<Rightarrow>
             let competitive_price = current_price * (1 + adjustment);
                 final_price = demand_weight m1 * demand_price
                               + competition_weight m1 * competitive_price;
                 final_price = max (base_price m1 * 0.5) (min final_price (base_price m1 * 2.0))
             in record_price m1 sid final_price)"

text \<open>The loop of \<^verbatim>\<open>suggest_rerouting\<close> over the competitors, building \<^verbatim>\<open>suggestions\<close>.\<close>

fun build_suggestions :: "real \<Rightarrow> competitor list \<Rightarrow> suggestion list" where
  "build_suggestions current_price [] = []"
| "build_suggestions current_price (c # rest) =
     (if comp_price c \<le> current_price * 1.1
      then \<lparr>sugg_space_id = comp_space_id c, sugg_distance_km = comp_distance c * 111,
             sugg_price = comp_price c, sugg_savings = current_price - comp_price c\<rparr>
           # build_suggestions current_price rest
      else build_suggestions current_price rest)"

definition suggest_rerouting :: "CompetitivePricingModel \<Rightarrow> int \<Rightarrow> int \<Rightarrow> int \<Rightarrow> suggestion list" where
  "suggest_rerouting m sid occupancy capacity =
     (if occupancy < capacity then []
      else
        let competitors = find_competitors m sid;
            current_price = get_current_price m sid
        in take 3 (build_suggestions current_price competitors))"

section \<open>Call sequences and ledger consistency\<close>

text \<open>
  The constructors and the methods write \<^verbatim>\<open>current_prices\<close> and \<^verbatim>\<open>price_history\<close> together, so
  in every state they produce a unit with a current price also has a history. Only in
  such a state does \<^verbatim>\<open>update_price\<close> get past its \<^verbatim>\<open>append\<close>.
\<close>

definition ledger_entry_ok :: "'a BaselineLinearModel_scheme \<Rightarrow> int \<Rightarrow> bool" where
  "ledger_entry_ok m sid =
     (case current_prices m sid of None \<Rightarrow> True | Some p \<Rightarrow> price_history m sid \<noteq> None)"

text \<open>
  A sequence of \<^verbatim>\<open>update_price\<close> calls on one object, each with its own arguments (the
  unit id first); the object after a call is the object of the next one.
\<close>

type_synonym baseline_call = "int \<times> real"
type_synonym demand_call = "int \<times> real \<times> int \<times> int \<times> bool \<times> real"
type_synonym competitive_call = "int \<times> real \<times> int \<times> int \<times> bool \<times> real \<times> int \<times> int"

fun baseline_call_step :: "BaselineLinearModel \<Rightarrow> baseline_call \<Rightarrow> BaselineLinearModel" where
  "baseline_call_step m (sid, occupancy_rate) = snd (baseline_update_price m sid occupancy_rate)"

fun demand_call_step :: "DemandBasedModel \<Rightarrow> demand_call \<Rightarrow> DemandBasedModel" where
  "demand_call_step m (sid, occupancy_rate, queue_length, traffic_level, is_special_day, vehicle_weight) =
     snd (demand_update_price m sid occupancy_rate queue_length traffic_level is_special_day
            vehicle_weight)"

fun competitive_call_step ::
  "CompetitivePricingModel \<Rightarrow> competitive_call \<Rightarrow> CompetitivePricingModel" where
  "competitive_call_step m (sid, occupancy_rate, queue_length, traffic_level, is_special_day,
       vehicle_weight, occupancy, capacity) =
     snd (competitive_update_price m sid occupancy_rate queue_length traffic_level is_special_day
            vehicle_weight occupancy capacity)"

text \<open>The number of calls of a sequence that are for a given unit.\<close>

definition calls_for :: "int \<Rightarrow> (int \<times> 'c) list \<Rightarrow> nat" where
  "calls_for sid calls = length (filter (\<lambda>c. fst c = sid) calls)"

text \<open>
  The ledger entry of a unit that has been updated \<open>n\<close> times since it was unknown to both
  dictionaries.
\<close>

definition history_state :: "'a BaselineLinearModel_scheme \<Rightarrow> int \<Rightarrow> nat \<Rightarrow> bool" where
  "history_state m sid n =
     (if n = 0 then current_prices m sid = None \<and> price_history m sid = None
      else \<exists>h. price_history m sid = Some h \<and> length h = n + 1 \<and> hd h = base_price m
               \<and> current_prices m sid = Some (last h))"

section \<open>Parameters and the claimed dampening\<close>

text \<open>
  The parameter values that \<^verbatim>\<open>CompetitivePricingModel.__init__\<close> assigns and that no method
  changes.
\<close>

definition init_parameters :: "CompetitivePricingModel \<Rightarrow> bool" where
  "init_parameters m \<longleftrightarrow>
     alpha m = 0.6 \<and> beta m = 0.3 \<and> gamma m = 0.2 \<and> delta m = 0.4 \<and> epsilon m = 0.1
     \<and> lambda_param m = 0.8 \<and> competition_weight m = 0.3 \<and> demand_weight m = 0.7"

text \<open>
  The soft-bound dampening as the specification words it, the upper bound treated like the
  lower one: a value beyond a bound is moved to the bound plus a tenth of the excess. It is
  compared below with what \<^verbatim>\<open>BaselineLinearModel.update_price\<close> computes.
\<close>

definition claimed_dampening :: "real \<Rightarrow> real \<Rightarrow> real \<Rightarrow> real" where
  "claimed_dampening min_price max_price new_price =
     (if new_price < min_price then min_price + (new_price - min_price) * 0.1
      else if new_price > max_price then max_price + (new_price - max_price) * 0.1
      else new_price)"

section \<open>The ledger prelude and the ledger write\<close>

lemma vivify_other:
  "y \<noteq> x \<Longrightarrow> current_prices (vivify m x) y = current_prices m y"
  "y \<noteq> x \<Longrightarrow> price_history (vivify m x) y = price_history m y"
  by (simp_all add: vivify_def split: option.splits)

lemma vivify_fields:
  "base_price (vivify m x) = base_price m"
  "alpha (vivify m x) = alpha m"
  "BaselineLinearModel.more (vivify m x) = BaselineLinearModel.more m"
  by (simp_all add: vivify_def split: option.splits)

lemma vivify_current:
  "current_prices (vivify m x) x = Some (get_current_price m x)"
  by (simp add: vivify_def get_current_price_def split: option.splits)

lemma vivify_history:
  "ledger_entry_ok m x \<Longrightarrow> \<exists>h. price_history (vivify m x) x = Some h"
  by (auto simp add: vivify_def ledger_entry_ok_def split: option.splits)

lemma record_price_other:
  "y \<noteq> x \<Longrightarrow> current_prices (snd (record_price m x p)) y = current_prices m y"
  "y \<noteq> x \<Longrightarrow> price_history (snd (record_price m x p)) y = price_history m y"
  by (simp_all add: record_price_def Let_def split: option.splits)

lemma record_price_fields:
  "base_price (snd (record_price m x p)) = base_price m"
  "alpha (snd (record_price m x p)) = alpha m"
  "BaselineLinearModel.more (snd (record_price m x p)) = BaselineLinearModel.more m"
  by (simp_all add: record_price_def Let_def split: option.splits)

lemma record_price_current:
  "current_prices (snd (record_price m x p)) x = Some p"
  by (simp add: record_price_def Let_def split: option.splits)

lemma record_price_returns:
  "price_history m x = Some h \<Longrightarrow> fst (record_price m x p) = Inr p"
  "price_history m x = Some h \<Longrightarrow> price_history (snd (record_price m x p)) x = Some (h @ [p])"
  by (simp_all add: record_price_def Let_def)

text \<open>Consistency of an entry is kept by the prelude followed by the write.\<close>

lemma ledger_write_entry_ok:
  "ledger_entry_ok m y \<Longrightarrow> ledger_entry_ok (snd (record_price (vivify m x) x p)) y"
  by (auto simp add: record_price_def vivify_def Let_def ledger_entry_ok_def split: option.splits)

lemma initialize_prices_entry_ok:
  "ledger_entry_ok m y \<Longrightarrow> ledger_entry_ok (initialize_prices m space_ids) y"
  by (induction m space_ids rule: initialize_prices.induct)
     (auto simp add: ledger_entry_ok_def split: option.splits)

lemma init_entry_ok:
  "ledger_entry_ok (BaselineLinearModel_init b a) y"
  "ledger_entry_ok (DemandBasedModel_init b) y"
  "ledger_entry_ok (CompetitivePricingModel_init b) y"
  by (simp_all add: ledger_entry_ok_def BaselineLinearModel_init_def DemandBasedModel_init_def
        CompetitivePricingModel_init_def)

lemma clamp_bounds:
  fixes b v :: real
  assumes "0 \<le> b"
  shows "b * 0.5 \<le> max (b * 0.5) (min v (b * 2.0))" "max (b * 0.5) (min v (b * 2.0)) \<le> b * 2.0"
  using assms by (auto simp: max_def min_def)

text \<open>Every update is the prelude, the computation of a clamped price, and the write.\<close>

lemma baseline_update_price_eq:
  "\<exists>p. baseline_update_price m x occ
        = record_price (vivify m x) x (max (base_price m * 0.5) (min p (base_price m * 2.0)))"
  unfolding baseline_update_price_def Let_def vivify_current vivify_fields option.case
  by (rule exI, rule refl)

lemma demand_update_price_eq:
  "\<exists>p. demand_update_price m x occ q t s w
        = record_price (vivify m x) x (max (base_price m * 0.5) (min p (base_price m * 2.0)))"
  unfolding demand_update_price_def Let_def vivify_fields
  by (rule exI, rule refl)

lemma competitive_update_price_eq:
  "\<exists>p. competitive_update_price m x occ q t s w oc ca
        = record_price (vivify m x) x (max (base_price m * 0.5) (min p (base_price m * 2.0)))"
  unfolding competitive_update_price_def Let_def vivify_current vivify_fields option.case
  by (rule exI, rule refl)

lemma ledger_write_bounds:
  assumes "0 \<le> base_price m" "ledger_entry_ok m x"
    and "r = record_price (vivify m x) x (max (base_price m * 0.5) (min v (base_price m * 2.0)))"
  shows "\<exists>p. fst r = Inr p \<and> current_prices (snd r) x = Some p
           \<and> base_price m * 0.5 \<le> p \<and> p \<le> base_price m * 2.0"
proof -
  obtain h where "price_history (vivify m x) x = Some h"
    using vivify_history [OF assms(2)] by blast
  then show ?thesis
    using assms(1,3) by (simp add: record_price_returns record_price_current clamp_bounds)
qed

lemma ledger_write_frame:
  assumes "y \<noteq> x" "r = record_price (vivify m x) x v"
  shows "current_prices (snd r) y = current_prices m y \<and> price_history (snd r) y = price_history m y"
  using assms by (simp add: record_price_other vivify_other)

lemma ledger_write_locations:
  "locations (snd (record_price (vivify m x) x v)) = locations m"
  by (simp add: record_price_def vivify_def Let_def split: option.splits)

lemma ledger_write_history_state:
  assumes "history_state m x n"
  shows "history_state (snd (record_price (vivify m x) x v)) x (Suc n)"
proof (cases "n = 0")
  case True
  with assms show ?thesis
    by (simp add: history_state_def vivify_def record_price_def Let_def)
next
  case False
  with assms obtain h where h: "price_history m x = Some h" "length h = n + 1"
      "hd h = base_price m" "current_prices m x = Some (last h)"
    by (auto simp add: history_state_def)
  from h(2) have "h \<noteq> []" by auto
  with h show ?thesis
    by (simp add: history_state_def vivify_def record_price_def Let_def)
qed

lemma ledger_write_history_state_other:
  assumes "history_state m y n" "y \<noteq> x"
  shows "history_state (snd (record_price (vivify m x) x v)) y n"
  using assms
  by (auto simp add: history_state_def record_price_other vivify_other record_price_fields
        vivify_fields split: if_splits)

lemma foldl_history_state:
  assumes step: "\<And>m c. \<exists>v. step m c = snd (record_price (vivify m (fst c)) (fst c) v)"
  shows "history_state m x n \<Longrightarrow> history_state (foldl step m cs) x (n + calls_for x cs)"
proof (induction cs arbitrary: m n)
  case Nil
  then show ?case by (simp add: calls_for_def)
next
  case (Cons c cs)
  obtain v where v: "step m c = snd (record_price (vivify m (fst c)) (fst c) v)"
    using step by blast
  show ?case
  proof (cases "fst c = x")
    case True
    with Cons.prems v have "history_state (step m c) x (Suc n)"
      by (simp add: ledger_write_history_state)
    from Cons.IH [OF this] True show ?thesis by (simp add: calls_for_def)
  next
    case False
    with Cons.prems v have "history_state (step m c) x n"
      by (simp add: ledger_write_history_state_other)
    from Cons.IH [OF this] False show ?thesis by (simp add: calls_for_def)
  qed
qed

lemma foldl_base_price:
  assumes step: "\<And>m c. \<exists>v. step m c = snd (record_price (vivify m (fst c)) (fst c) v)"
  shows "base_price (foldl step m cs) = base_price m"
proof (induction cs arbitrary: m)
  case Nil
  then show ?case by simp
next
  case (Cons c cs)
  obtain v where v: "step m c = snd (record_price (vivify m (fst c)) (fst c) v)"
    using step by blast
  then show ?case by (simp add: Cons.IH record_price_fields vivify_fields)
qed

lemma history_state_getters:
  assumes "history_state m x n"
  shows "length (get_price_history m x) = n + 1 \<and> hd (get_price_history m x) = base_price m
         \<and> last (get_price_history m x) = get_current_price m x"
  using assms
  by (auto simp add: history_state_def get_price_history_def get_current_price_def split: if_splits)

lemma baseline_call_step_eq:
  "\<exists>v. baseline_call_step m c = snd (record_price (vivify m (fst c)) (fst c) v)"
proof (induction m c rule: baseline_call_step.induct)
  case (1 m sid r)
  obtain p where "baseline_update_price m sid r
      = record_price (vivify m sid) sid (max (base_price m * 0.5) (min p (base_price m * 2.0)))"
    using baseline_update_price_eq by blast
  then show ?case by auto
qed

lemma demand_call_step_eq:
  "\<exists>v. demand_call_step m c = snd (record_price (vivify m (fst c)) (fst c) v)"
proof (induction m c rule: demand_call_step.induct)
  case (1 m sid occ q t s w)
  obtain p where "demand_update_price m sid occ q t s w
      = record_price (vivify m sid) sid (max (base_price m * 0.5) (min p (base_price m * 2.0)))"
    using demand_update_price_eq by blast
  then show ?case by auto
qed

lemma competitive_call_step_eq:
  "\<exists>v. competitive_call_step m c = snd (record_price (vivify m (fst c)) (fst c) v)"
proof (induction m c rule: competitive_call_step.induct)
  case (1 m sid occ q t s w oc ca)
  obtain p where "competitive_update_price m sid occ q t s w oc ca
      = record_price (vivify m sid) sid (max (base_price m * 0.5) (min p (base_price m * 2.0)))"
    using competitive_update_price_eq by blast
  then show ?case by auto
qed

section \<open>Price bounds\<close>

text \<open>
  Claim C1. For each of the three strategies, \<^verbatim>\<open>update_price\<close> returns a price, stores that
  price as the unit's current price, and the price lies between half the base price and
  twice the base price. The inputs of the call are arbitrary; the base price is not
  negative (for a negative base price the interval is empty) and the unit's ledger entry
  is consistent.
\<close>

theorem update_price_within_bounds:
  assumes "0 \<le> base_price mb" "ledger_entry_ok mb x"
    and "0 \<le> base_price md" "ledger_entry_ok md x"
    and "0 \<le> base_price mc" "ledger_entry_ok mc x"
  shows "(\<exists>p. fst (baseline_update_price mb x occupancy_rate) = Inr p
             \<and> current_prices (snd (baseline_update_price mb x occupancy_rate)) x = Some p
             \<and> base_price mb * 0.5 \<le> p \<and> p \<le> base_price mb * 2.0)
       \<and> (\<exists>p. fst (demand_update_price md x occupancy_rate queue_length traffic_level
                      is_special_day vehicle_weight) = Inr p
             \<and> current_prices (snd (demand_update_price md x occupancy_rate queue_length traffic_level
                      is_special_day vehicle_weight)) x = Some p
             \<and> base_price md * 0.5 \<le> p \<and> p \<le> base_price md * 2.0)
       \<and> (\<exists>p. fst (competitive_update_price mc x occupancy_rate queue_length traffic_level
                      is_special_day vehicle_weight occupancy capacity) = Inr p
             \<and> current_prices (snd (competitive_update_price mc x occupancy_rate queue_length traffic_level
                      is_special_day vehicle_weight occupancy capacity)) x = Some p
             \<and> base_price mc * 0.5 \<le> p \<and> p \<le> base_price mc * 2.0)"
proof (intro conjI)
  let ?r = "baseline_update_price mb x occupancy_rate"
  obtain v where "?r = record_price (vivify mb x) x (max (base_price mb * 0.5) (min v (base_price mb * 2.0)))"
    using baseline_update_price_eq by blast
  then show "\<exists>p. fst ?r = Inr p \<and> current_prices (snd ?r) x = Some p
             \<and> base_price mb * 0.5 \<le> p \<and> p \<le> base_price mb * 2.0"
    using ledger_write_bounds [OF assms(1,2)] by blast
next
  let ?r = "demand_update_price md x occupancy_rate queue_length traffic_level
                      is_special_day vehicle_weight"
  obtain v where "?r = record_price (vivify md x) x (max (base_price md * 0.5) (min v (base_price md * 2.0)))"
    using demand_update_price_eq by blast
  then show "\<exists>p. fst ?r = Inr p \<and> current_prices (snd ?r) x = Some p
             \<and> base_price md * 0.5 \<le> p \<and> p \<le> base_price md * 2.0"
    using ledger_write_bounds [OF assms(3,4)] by blast
next
  let ?r = "competitive_update_price mc x occupancy_rate queue_length traffic_level
                      is_special_day vehicle_weight occupancy capacity"
  obtain v where "?r = record_price (vivify mc x) x (max (base_price mc * 0.5) (min v (base_price mc * 2.0)))"
    using competitive_update_price_eq by blast
  then show "\<exists>p. fst ?r = Inr p \<and> current_prices (snd ?r) x = Some p
             \<and> base_price mc * 0.5 \<le> p \<and> p \<le> base_price mc * 2.0"
    using ledger_write_bounds [OF assms(5,6)] by blast
qed

theorem update_price_within_bounds_witness:
  "0 \<le> base_price (BaselineLinearModel_init 10 0.5)
   \<and> ledger_entry_ok (BaselineLinearModel_init 10 0.5) 1
   \<and> 0 \<le> base_price (DemandBasedModel_init 10)
   \<and> ledger_entry_ok (DemandBasedModel_init 10) 1
   \<and> 0 \<le> base_price (CompetitivePricingModel_init 10)
   \<and> ledger_entry_ok (CompetitivePricingModel_init 10) 1
   \<and> (\<exists>p. fst (baseline_update_price (BaselineLinearModel_init 10 0.5) 1 0.8) = Inr p
          \<and> current_prices (snd (baseline_update_price (BaselineLinearModel_init 10 0.5) 1 0.8)) 1
              = Some p
          \<and> base_price (BaselineLinearModel_init 10 0.5) * 0.5 \<le> p
          \<and> p \<le> base_price (BaselineLinearModel_init 10 0.5) * 2.0)
   \<and> (\<exists>p. fst (demand_update_price (DemandBasedModel_init 10) 1 1 20 10 True 1) = Inr p
          \<and> current_prices (snd (demand_update_price (DemandBasedModel_init 10) 1 1 20 10 True 1)) 1
              = Some p
          \<and> base_price (DemandBasedModel_init 10) * 0.5 \<le> p
          \<and> p \<le> base_price (DemandBasedModel_init 10) * 2.0)
   \<and> (\<exists>p. fst (competitive_update_price (CompetitivePricingModel_init 10) 1 1 20 10 True 1 50 50)
              = Inr p
          \<and> current_prices
               (snd (competitive_update_price (CompetitivePricingModel_init 10) 1 1 20 10 True 1 50 50)) 1
              = Some p
          \<and> base_price (CompetitivePricingModel_init 10) * 0.5 \<le> p
          \<and> p \<le> base_price (CompetitivePricingModel_init 10) * 2.0)"
proof -
  have b: "0 \<le> base_price (BaselineLinearModel_init 10 0.5)"
    by (simp add: BaselineLinearModel_init_def)
  have d: "0 \<le> base_price (DemandBasedModel_init 10)"
    by (simp add: DemandBasedModel_init_def)
  have c: "0 \<le> base_price (CompetitivePricingModel_init 10)"
    by (simp add: CompetitivePricingModel_init_def)
  have ok: "ledger_entry_ok (BaselineLinearModel_init 10 0.5) 1"
    "ledger_entry_ok (DemandBasedModel_init 10) 1"
    "ledger_entry_ok (CompetitivePricingModel_init 10) 1"
    by (rule init_entry_ok)+
  show ?thesis
    using b d c ok update_price_within_bounds [OF b ok(1) d ok(2) c ok(3)] by blast
qed

section \<open>History of a new unit\<close>

text \<open>
  Claim C6. For each of the three models: after a sequence of \<^verbatim>\<open>update_price\<close> calls of which
  \<open>N\<close> are for a unit that was in neither dictionary before (the other calls are for other
  units), the unit's price history has length \<open>N + 1\<close>, its first element is the base
  price, and its last element is the unit's current price.
\<close>

theorem history_after_updates:
  assumes "current_prices mb x = None" "price_history mb x = None"
    and "current_prices md x = None" "price_history md x = None"
    and "current_prices mc x = None" "price_history mc x = None"
  shows "(let m' = foldl baseline_call_step mb bcalls; h = get_price_history m' x
          in length h = calls_for x bcalls + 1 \<and> hd h = base_price mb
             \<and> last h = get_current_price m' x)
       \<and> (let m' = foldl demand_call_step md dcalls; h = get_price_history m' x
          in length h = calls_for x dcalls + 1 \<and> hd h = base_price md
             \<and> last h = get_current_price m' x)
       \<and> (let m' = foldl competitive_call_step mc ccalls; h = get_price_history m' x
          in length h = calls_for x ccalls + 1 \<and> hd h = base_price mc
             \<and> last h = get_current_price m' x)"
proof -
  have "history_state mb x 0" "history_state md x 0" "history_state mc x 0"
    using assms by (simp_all add: history_state_def)
  then have "history_state (foldl baseline_call_step mb bcalls) x (0 + calls_for x bcalls)"
    "history_state (foldl demand_call_step md dcalls) x (0 + calls_for x dcalls)"
    "history_state (foldl competitive_call_step mc ccalls) x (0 + calls_for x ccalls)"
    using foldl_history_state [of baseline_call_step, OF baseline_call_step_eq]
      foldl_history_state [of demand_call_step, OF demand_call_step_eq]
      foldl_history_state [of competitive_call_step, OF competitive_call_step_eq]
    by blast+
  then show ?thesis
    using history_state_getters [of "foldl baseline_call_step mb bcalls" x]
      history_state_getters [of "foldl demand_call_step md dcalls" x]
      history_state_getters [of "foldl competitive_call_step mc ccalls" x]
      foldl_base_price [of baseline_call_step, OF baseline_call_step_eq]
      foldl_base_price [of demand_call_step, OF demand_call_step_eq]
      foldl_base_price [of competitive_call_step, OF competitive_call_step_eq]
    by (simp add: Let_def)
qed

theorem history_after_updates_witness:
  "current_prices (BaselineLinearModel_init 10 0.5) 1 = None
   \<and> price_history (BaselineLinearModel_init 10 0.5) 1 = None
   \<and> current_prices (DemandBasedModel_init 10) 1 = None
   \<and> price_history (DemandBasedModel_init 10) 1 = None
   \<and> current_prices (CompetitivePricingModel_init 10) 1 = None
   \<and> price_history (CompetitivePricingModel_init 10) 1 = None
   \<and> (let m' = foldl baseline_call_step (BaselineLinearModel_init 10 0.5)
                  [(1, 0.8), (2, 0.5), (1, 0.3)];
          h = get_price_history m' 1
      in length h = 2 + 1 \<and> hd h = 10 \<and> last h = get_current_price m' 1)
   \<and> (let m' = foldl demand_call_step (DemandBasedModel_init 10)
                  [(1, 1, 20, 10, True, 1), (2, 0.5, 3, 4, False, 1), (1, 0.2, 0, 1, False, 1.5)];
          h = get_price_history m' 1
      in length h = 2 + 1 \<and> hd h = 10 \<and> last h = get_current_price m' 1)
   \<and> (let m' = foldl competitive_call_step (CompetitivePricingModel_init 10)
                  [(1, 1, 20, 10, True, 1, 50, 50), (2, 0.5, 3, 4, False, 1, 25, 50),
                   (1, 0.2, 0, 1, False, 1.5, 10, 50)];
          h = get_price_history m' 1
      in length h = 2 + 1 \<and> hd h = 10 \<and> last h = get_current_price m' 1)"
proof -
  have unseen: "current_prices (BaselineLinearModel_init 10 0.5) 1 = None"
    "price_history (BaselineLinearModel_init 10 0.5) 1 = None"
    "current_prices (DemandBasedModel_init 10) 1 = None"
    "price_history (DemandBasedModel_init 10) 1 = None"
    "current_prices (CompetitivePricingModel_init 10) 1 = None"
    "price_history (CompetitivePricingModel_init 10) 1 = None"
    by (simp_all add: BaselineLinearModel_init_def DemandBasedModel_init_def
          CompetitivePricingModel_init_def)
  have base: "base_price (BaselineLinearModel_init 10 0.5) = 10"
    "base_price (DemandBasedModel_init 10) = 10"
    "base_price (CompetitivePricingModel_init 10) = 10"
    by (simp_all add: BaselineLinearModel_init_def DemandBasedModel_init_def
          CompetitivePricingModel_init_def)
  have n: "calls_for 1 [(1, 0.8), (2, 0.5), (1, 0.3) :: baseline_call] = 2"
    "calls_for 1 [(1, 1, 20, 10, True, 1), (2, 0.5, 3, 4, False, 1),
                  (1, 0.2, 0, 1, False, 1.5) :: demand_call] = 2"
    "calls_for 1 [(1, 1, 20, 10, True, 1, 50, 50), (2, 0.5, 3, 4, False, 1, 25, 50),
                  (1, 0.2, 0, 1, False, 1.5, 10, 50) :: competitive_call] = 2"
    by (simp_all add: calls_for_def)
  show ?thesis
    using unseen
      history_after_updates [OF unseen,
        where bcalls = "[(1, 0.8), (2, 0.5), (1, 0.3)]"
          and dcalls = "[(1, 1, 20, 10, True, 1), (2, 0.5, 3, 4, False, 1), (1, 0.2, 0, 1, False, 1.5)]"
          and ccalls = "[(1, 1, 20, 10, True, 1, 50, 50), (2, 0.5, 3, 4, False, 1, 25, 50),
                         (1, 0.2, 0, 1, False, 1.5, 10, 50)]"]
    unfolding n base by blast
qed

section \<open>Frame of an update\<close>

text \<open>
  Claim C10. For each of the three models, \<^verbatim>\<open>update_price\<close> for unit \<open>x\<close> leaves the current
  price and the price history of every other unit \<open>y\<close> as they were, and the competitive
  model's locations as well, whether or not the call raises.
\<close>

theorem update_price_frame:
  assumes "y \<noteq> x"
  shows "(let m' = snd (baseline_update_price mb x occupancy_rate)
          in current_prices m' y = current_prices mb y \<and> price_history m' y = price_history mb y)
       \<and> (let m' = snd (demand_update_price md x occupancy_rate queue_length traffic_level
                          is_special_day vehicle_weight)
          in current_prices m' y = current_prices md y \<and> price_history m' y = price_history md y)
       \<and> (let m' = snd (competitive_update_price mc x occupancy_rate queue_length traffic_level
                          is_special_day vehicle_weight occupancy capacity)
          in current_prices m' y = current_prices mc y \<and> price_history m' y = price_history mc y
             \<and> locations m' = locations mc)"
proof -
  obtain vb where "baseline_update_price mb x occupancy_rate = record_price (vivify mb x) x vb"
    using baseline_update_price_eq by blast
  moreover obtain vd where "demand_update_price md x occupancy_rate queue_length traffic_level
      is_special_day vehicle_weight = record_price (vivify md x) x vd"
    using demand_update_price_eq by blast
  moreover obtain vc where "competitive_update_price mc x occupancy_rate queue_length traffic_level
      is_special_day vehicle_weight occupancy capacity = record_price (vivify mc x) x vc"
    using competitive_update_price_eq by blast
  ultimately show ?thesis
    using assms by (simp add: Let_def ledger_write_frame ledger_write_locations)
qed

theorem update_price_frame_witness:
  "(2::int) \<noteq> 1
   \<and> (let m' = snd (baseline_update_price (initialize_prices (BaselineLinearModel_init 10 0.5) [1, 2]) 1 1)
      in current_prices m' 2 = Some 10 \<and> price_history m' 2 = Some [10])
   \<and> (let m' = snd (demand_update_price (initialize_prices (DemandBasedModel_init 10) [1, 2])
                      1 1 20 10 True 1)
      in current_prices m' 2 = Some 10 \<and> price_history m' 2 = Some [10])
   \<and> (let m' = snd (competitive_update_price
                      (competitive_initialize_prices (CompetitivePricingModel_init 10) [1, 2]
                         [(1, \<lparr>latitude = 0, longitude = 0\<rparr>), (2, \<lparr>latitude = 0, longitude = 0.001\<rparr>)])
                      1 1 20 10 True 1 50 50)
      in current_prices m' 2 = Some 10 \<and> price_history m' 2 = Some [10]
         \<and> locations m' = [(1, \<lparr>latitude = 0, longitude = 0\<rparr>), (2, \<lparr>latitude = 0, longitude = 0.001\<rparr>)])"
proof -
  have ne: "(2::int) \<noteq> 1" by simp
  show ?thesis
    using ne update_price_frame [OF ne,
        where mb = "initialize_prices (BaselineLinearModel_init 10 0.5) [1, 2]"
          and md = "initialize_prices (DemandBasedModel_init 10) [1, 2]"
          and mc = "competitive_initialize_prices (CompetitivePricingModel_init 10) [1, 2]
                      [(1, \<lparr>latitude = 0, longitude = 0\<rparr>), (2, \<lparr>latitude = 0, longitude = 0.001\<rparr>)]"
          and occupancy_rate = 1 and queue_length = 20 and traffic_level = 10
          and is_special_day = True and vehicle_weight = 1 and occupancy = 50 and capacity = 50]
    by (simp add: Let_def BaselineLinearModel_init_def DemandBasedModel_init_def
          CompetitivePricingModel_init_def competitive_initialize_prices_def)
qed

section \<open>Competitor search, adjustment and rerouting\<close>

lemma scan_locations_eq:
  "scan_locations m x cur locs =
     map (\<lambda>(oid, oloc). \<lparr>comp_space_id = oid,
            comp_distance = calculate_distance (latitude cur) (longitude cur) (latitude oloc) (longitude oloc),
            comp_price = get_current_price m oid\<rparr>)
       (filter (\<lambda>(oid, oloc). oid \<noteq> x
            \<and> calculate_distance (latitude cur) (longitude cur) (latitude oloc) (longitude oloc)
                \<le> competition_radius m) locs)"
  by (induction m x cur locs rule: scan_locations.induct) (simp_all add: Let_def)

lemma find_competitors_sorted: "sorted (map comp_distance (find_competitors m x))"
  by (simp add: find_competitors_def split: option.splits)

lemma find_competitors_set:
  assumes "map_of (locations m) x = Some cur"
  shows "set (find_competitors m x) =
     {\<lparr>comp_space_id = oid,
        comp_distance = sqrt ((latitude cur - latitude oloc)\<^sup>2 + (longitude cur - longitude oloc)\<^sup>2),
        comp_price = get_current_price m oid\<rparr> | oid oloc.
      (oid, oloc) \<in> set (locations m) \<and> oid \<noteq> x
      \<and> sqrt ((latitude cur - latitude oloc)\<^sup>2 + (longitude cur - longitude oloc)\<^sup>2)
          \<le> competition_radius m}"
  using assms
  by (auto simp add: find_competitors_def scan_locations_eq calculate_distance_def image_iff)

lemma find_competitors_ids:
  "map comp_space_id (scan_locations m x cur locs) =
     filter (\<lambda>oid. oid \<noteq> x) (map fst (filter (\<lambda>(oid, oloc). 
       calculate_distance (latitude cur) (longitude cur) (latitude oloc) (longitude oloc)
                \<le> competition_radius m) locs))"
  by (induction m x cur locs rule: scan_locations.induct) (simp_all add: Let_def)

lemma find_competitors_distinct:
  assumes "distinct (map fst (locations m))"
  shows "distinct (map comp_space_id (find_competitors m x))"
proof (cases "map_of (locations m) x")
  case None
  then show ?thesis by (simp add: find_competitors_def)
next
  case (Some cur)
  have "distinct (map comp_space_id (scan_locations m x cur (locations m)))"
    unfolding find_competitors_ids using assms
    by (simp add: distinct_map_filter)
  then have "distinct (map comp_space_id (sort_key comp_distance (scan_locations m x cur (locations m))))"
    by (metis distinct_map distinct_sort set_sort)
  with Some show ?thesis by (simp add: find_competitors_def)
qed

text \<open>
  Claim C8. \<^verbatim>\<open>find_competitors\<close> returns the empty list for a unit without a location. For a
  unit with a location it returns exactly the candidates built from the other units of the
  locations registry whose Euclidean distance \<open>sqrt ((lat1 - lat2)\<^sup>2 + (lon1 - lon2)\<^sup>2)\<close> from
  the unit is at most \<^verbatim>\<open>competition_radius\<close>, each carrying that distance and the other unit's
  current price (the base price when it has none), and so the empty list when no other unit
  is within the radius. The result is in ascending order of distance, and it names each unit
  at most once, the registry's keys being distinct.
\<close>

theorem find_competitors_spec:
  "(map_of (locations m) x = None \<longrightarrow> find_competitors m x = [])
   \<and> (\<forall>cur. map_of (locations m) x = Some cur \<longrightarrow>
         set (find_competitors m x) =
           {\<lparr>comp_space_id = oid,
              comp_distance = sqrt ((latitude cur - latitude oloc)\<^sup>2 + (longitude cur - longitude oloc)\<^sup>2),
              comp_price = get_current_price m oid\<rparr> | oid oloc.
            (oid, oloc) \<in> set (locations m) \<and> oid \<noteq> x
            \<and> sqrt ((latitude cur - latitude oloc)\<^sup>2 + (longitude cur - longitude oloc)\<^sup>2)
                \<le> competition_radius m}
         \<and> ((\<forall>(oid, oloc) \<in> set (locations m). oid = x
                \<or> \<not> sqrt ((latitude cur - latitude oloc)\<^sup>2 + (longitude cur - longitude oloc)\<^sup>2)
                     \<le> competition_radius m)
              \<longrightarrow> find_competitors m x = []))
   \<and> sorted (map comp_distance (find_competitors m x))
   \<and> (distinct (map fst (locations m)) \<longrightarrow> distinct (map comp_space_id (find_competitors m x)))"
proof (intro conjI allI impI)
  assume "map_of (locations m) x = None"
  then show "find_competitors m x = []" by (simp add: find_competitors_def)
next
  fix cur assume "map_of (locations m) x = Some cur"
  then show "set (find_competitors m x) =
           {\<lparr>comp_space_id = oid,
              comp_distance = sqrt ((latitude cur - latitude oloc)\<^sup>2 + (longitude cur - longitude oloc)\<^sup>2),
              comp_price = get_current_price m oid\<rparr> | oid oloc.
            (oid, oloc) \<in> set (locations m) \<and> oid \<noteq> x
            \<and> sqrt ((latitude cur - latitude oloc)\<^sup>2 + (longitude cur - longitude oloc)\<^sup>2)
                \<le> competition_radius m}"
    by (rule find_competitors_set)
next
  fix cur
  assume cur: "map_of (locations m) x = Some cur"
    and none: "\<forall>(oid, oloc) \<in> set (locations m). oid = x
                \<or> \<not> sqrt ((latitude cur - latitude oloc)\<^sup>2 + (longitude cur - longitude oloc)\<^sup>2)
                     \<le> competition_radius m"
  have "set (find_competitors m x) = {}"
    unfolding find_competitors_set [OF cur] using none by auto
  then show "find_competitors m x = []" by simp
next
  show "sorted (map comp_distance (find_competitors m x))" by (rule find_competitors_sorted)
next
  assume "distinct (map fst (locations m))"
  then show "distinct (map comp_space_id (find_competitors m x))" by (rule find_competitors_distinct)
qed


theorem find_competitors_spec_witness:
  "map_of (locations (competitive_initialize_prices (CompetitivePricingModel_init 10) [1, 2]
      [(1, \<lparr>latitude = 0, longitude = 0\<rparr>), (2, \<lparr>latitude = 0, longitude = 1 / 1000\<rparr>),
       (3, \<lparr>latitude = 1, longitude = 1\<rparr>)])) 1 = Some \<lparr>latitude = 0, longitude = 0\<rparr>
   \<and> set (find_competitors (competitive_initialize_prices (CompetitivePricingModel_init 10) [1, 2]
      [(1, \<lparr>latitude = 0, longitude = 0\<rparr>), (2, \<lparr>latitude = 0, longitude = 1 / 1000\<rparr>),
       (3, \<lparr>latitude = 1, longitude = 1\<rparr>)]) 1)
      = {\<lparr>comp_space_id = 2, comp_distance = 1 / 1000, comp_price = 10\<rparr>}
   \<and> map_of (locations (CompetitivePricingModel_init 10)) 1 = None
   \<and> find_competitors (CompetitivePricingModel_init 10) 1 = []
   \<and> distinct (map fst (locations (competitive_initialize_prices (CompetitivePricingModel_init 10) [1, 2]
      [(1, \<lparr>latitude = 0, longitude = 0\<rparr>), (2, \<lparr>latitude = 0, longitude = 1 / 1000\<rparr>),
       (3, \<lparr>latitude = 1, longitude = 1\<rparr>)])))
   \<and> distinct (map comp_space_id (find_competitors
      (competitive_initialize_prices (CompetitivePricingModel_init 10) [1, 2]
      [(1, \<lparr>latitude = 0, longitude = 0\<rparr>), (2, \<lparr>latitude = 0, longitude = 1 / 1000\<rparr>),
       (3, \<lparr>latitude = 1, longitude = 1\<rparr>)]) 1))"
proof -
  let ?m = "competitive_initialize_prices (CompetitivePricingModel_init 10) [1, 2]
      [(1, \<lparr>latitude = 0, longitude = 0\<rparr>), (2, \<lparr>latitude = 0, longitude = 1 / 1000\<rparr>),
       (3, \<lparr>latitude = 1, longitude = 1\<rparr>)]"
  have locs: "locations ?m = [(1, \<lparr>latitude = 0, longitude = 0\<rparr>), (2, \<lparr>latitude = 0, longitude = 1 / 1000\<rparr>),
       (3, \<lparr>latitude = 1, longitude = 1\<rparr>)]"
    and radius: "competition_radius ?m = 0.005"
    and price: "get_current_price ?m 2 = 10"
    by (simp_all add: competitive_initialize_prices_def CompetitivePricingModel_init_def
          get_current_price_def)
  have known: "map_of (locations ?m) 1 = Some \<lparr>latitude = 0, longitude = 0\<rparr>"
    unfolding locs by simp
  have unknown: "map_of (locations (CompetitivePricingModel_init 10)) 1 = None"
    by (simp add: CompetitivePricingModel_init_def)
  have keys: "distinct (map fst (locations ?m))"
    unfolding locs by simp
  have far: "\<not> sqrt 2 \<le> (1 / 200 :: real)"
  proof -
    have "(1::real) \<le> sqrt 2" by simp
    then show ?thesis by linarith
  qed
  have "set (find_competitors ?m 1) =
           {\<lparr>comp_space_id = oid,
              comp_distance = sqrt ((latitude \<lparr>latitude = 0, longitude = 0\<rparr> - latitude oloc)\<^sup>2
                                + (longitude \<lparr>latitude = 0, longitude = 0\<rparr> - longitude oloc)\<^sup>2),
              comp_price = get_current_price ?m oid\<rparr> | oid oloc.
            (oid, oloc) \<in> set (locations ?m) \<and> oid \<noteq> 1
            \<and> sqrt ((latitude \<lparr>latitude = 0, longitude = 0\<rparr> - latitude oloc)\<^sup>2
                   + (longitude \<lparr>latitude = 0, longitude = 0\<rparr> - longitude oloc)\<^sup>2)
                \<le> competition_radius ?m}"
    using find_competitors_spec [of ?m 1] known by blast
  also have "\<dots> = {\<lparr>comp_space_id = 2, comp_distance = 1 / 1000, comp_price = 10\<rparr>}"
    unfolding locs radius using far
    by (auto simp add: price real_sqrt_divide)
  finally have found: "set (find_competitors ?m 1)
      = {\<lparr>comp_space_id = 2, comp_distance = 1 / 1000, comp_price = 10\<rparr>}" .
  show ?thesis
    using known unknown keys found find_competitors_spec [of ?m 1]
      find_competitors_spec [of "CompetitivePricingModel_init 10" 1]
    by blast
qed

lemma build_suggestions_eq:
  "build_suggestions cur cs =
     map (\<lambda>c. \<lparr>sugg_space_id = comp_space_id c, sugg_distance_km = comp_distance c * 111,
                sugg_price = comp_price c, sugg_savings = cur - comp_price c\<rparr>)
       (filter (\<lambda>c. comp_price c \<le> cur * 1.1) cs)"
  by (induction cur cs rule: build_suggestions.induct) simp_all

lemma sorted_take_drop:
  fixes f :: "'a \<Rightarrow> real"
  assumes "sorted (map f xs)"
  shows "sorted (map f (take n xs))"
    and "\<forall>a \<in> set (drop n xs). \<forall>b \<in> set (take n xs). f b \<le> f a"
proof -
  from assms have "sorted (map f (take n xs) @ map f (drop n xs))"
    by (simp flip: map_append)
  then show "sorted (map f (take n xs))"
    and "\<forall>a \<in> set (drop n xs). \<forall>b \<in> set (take n xs). f b \<le> f a"
    by (auto simp add: sorted_append)
qed

text \<open>
  Claim C9. \<^verbatim>\<open>suggest_rerouting\<close> returns the empty list when \<open>occupancy < capacity\<close>. Otherwise
  it returns at most 3 entries: the first three, in the ascending-distance order of
  \<^verbatim>\<open>find_competitors\<close>, of the competitors priced at or below \<open>current_price * 1.1\<close>, so that no
  qualifying competitor left out is nearer than one returned; each entry has
  \<open>distance_km = distance * 111\<close> and \<open>savings = current_price - competitor price\<close>.
\<close>

theorem suggest_rerouting_spec:
  "(occupancy < capacity \<longrightarrow> suggest_rerouting m x occupancy capacity = [])
   \<and> (capacity \<le> occupancy \<longrightarrow>
        (let cur = get_current_price m x;
             qualifying = filter (\<lambda>c. comp_price c \<le> cur * 1.1) (find_competitors m x);
             r = suggest_rerouting m x occupancy capacity
         in length r \<le> 3
            \<and> r = map (\<lambda>c. \<lparr>sugg_space_id = comp_space_id c,
                              sugg_distance_km = comp_distance c * 111,
                              sugg_price = comp_price c,
                              sugg_savings = cur - comp_price c\<rparr>) (take 3 qualifying)
            \<and> sorted (map comp_distance (take 3 qualifying))
            \<and> (\<forall>c \<in> set (drop 3 qualifying). \<forall>c' \<in> set (take 3 qualifying).
                  comp_distance c' \<le> comp_distance c)))"
proof (intro conjI impI)
  assume "occupancy < capacity"
  then show "suggest_rerouting m x occupancy capacity = []"
    by (simp add: suggest_rerouting_def)
next
  assume full: "capacity \<le> occupancy"
  let ?cur = "get_current_price m x"
  let ?q = "filter (\<lambda>c. comp_price c \<le> ?cur * 1.1) (find_competitors m x)"
  have eq: "suggest_rerouting m x occupancy capacity
      = map (\<lambda>c. \<lparr>sugg_space_id = comp_space_id c, sugg_distance_km = comp_distance c * 111,
                   sugg_price = comp_price c, sugg_savings = ?cur - comp_price c\<rparr>) (take 3 ?q)"
    using full by (simp add: suggest_rerouting_def Let_def build_suggestions_eq take_map)
  have "sorted (map comp_distance ?q)"
    using find_competitors_sorted [of m x] by (simp add: sorted_map sorted_wrt_filter)
  from sorted_take_drop [OF this, of 3] eq
  show "let cur = get_current_price m x;
             qualifying = filter (\<lambda>c. comp_price c \<le> cur * 1.1) (find_competitors m x);
             r = suggest_rerouting m x occupancy capacity
         in length r \<le> 3
            \<and> r = map (\<lambda>c. \<lparr>sugg_space_id = comp_space_id c,
                              sugg_distance_km = comp_distance c * 111,
                              sugg_price = comp_price c,
                              sugg_savings = cur - comp_price c\<rparr>) (take 3 qualifying)
            \<and> sorted (map comp_distance (take 3 qualifying))
            \<and> (\<forall>c \<in> set (drop 3 qualifying). \<forall>c' \<in> set (take 3 qualifying).
                  comp_distance c' \<le> comp_distance c)"
    by (simp add: Let_def)
qed

theorem suggest_rerouting_spec_witness:
  "(10::int) < 50
   \<and> suggest_rerouting ((CompetitivePricingModel_init 10)
      \<lparr>current_prices := [1 \<mapsto> 12, 2 \<mapsto> 10], price_history := [1 \<mapsto> [10, 12], 2 \<mapsto> [10]],
       locations := [(1, \<lparr>latitude = 0, longitude = 0\<rparr>), (2, \<lparr>latitude = 0, longitude = 1 / 1000\<rparr>)]\<rparr>) 1 10 50 = []
   \<and> (50::int) \<le> 50
   \<and> suggest_rerouting ((CompetitivePricingModel_init 10)
      \<lparr>current_prices := [1 \<mapsto> 12, 2 \<mapsto> 10], price_history := [1 \<mapsto> [10, 12], 2 \<mapsto> [10]],
       locations := [(1, \<lparr>latitude = 0, longitude = 0\<rparr>), (2, \<lparr>latitude = 0, longitude = 1 / 1000\<rparr>)]\<rparr>) 1 50 50
       = [\<lparr>sugg_space_id = 2, sugg_distance_km = 111 / 1000, sugg_price = 10, sugg_savings = 2\<rparr>]
   \<and> suggest_rerouting ((CompetitivePricingModel_init 10)
      \<lparr>current_prices := [1 \<mapsto> 12, 2 \<mapsto> 10], price_history := [1 \<mapsto> [10, 12], 2 \<mapsto> [10]],
       locations := [(1, \<lparr>latitude = 0, longitude = 0\<rparr>), (2, \<lparr>latitude = 0, longitude = 1 / 1000\<rparr>)]\<rparr>) 2 50 50 = []"
proof -
  let ?m = "(CompetitivePricingModel_init 10)
      \<lparr>current_prices := [1 \<mapsto> 12, 2 \<mapsto> 10], price_history := [1 \<mapsto> [10, 12], 2 \<mapsto> [10]],
       locations := [(1, \<lparr>latitude = 0, longitude = 0\<rparr>), (2, \<lparr>latitude = 0, longitude = 1 / 1000\<rparr>)]\<rparr>"
  have fc1: "find_competitors ?m 1 = [\<lparr>comp_space_id = 2, comp_distance = 1 / 1000, comp_price = 10\<rparr>]"
    and fc2: "find_competitors ?m 2 = [\<lparr>comp_space_id = 1, comp_distance = 1 / 1000, comp_price = 12\<rparr>]"
    by (simp_all add: find_competitors_def CompetitivePricingModel_init_def calculate_distance_def
          get_current_price_def real_sqrt_divide)
  have cur: "get_current_price ?m 1 = 12" "get_current_price ?m 2 = 10"
    by (simp_all add: get_current_price_def)
  show ?thesis
    using suggest_rerouting_spec [of 10 50 ?m 1] suggest_rerouting_spec [of 50 50 ?m 1]
      suggest_rerouting_spec [of 50 50 ?m 2]
    by (simp add: Let_def fc1 fc2 cur)
qed

text \<open>
  Claim C7. When the unit has at least one competitor and \<open>occupancy \<ge> capacity\<close>,
  \<^verbatim>\<open>calculate_competitive_adjustment\<close> returns \<open>-0.1\<close> if the arithmetic mean of the competitors'
  prices is strictly below the unit's current price and \<open>0.05\<close> otherwise, whatever the size
  of the gap.
\<close>

theorem competitive_adjustment_when_full:
  assumes "find_competitors m x \<noteq> []" "capacity \<le> occupancy"
  shows "calculate_competitive_adjustment m x occupancy capacity =
           (if sum_list (map comp_price (find_competitors m x))
                 / real (length (find_competitors m x)) < get_current_price m x
            then - 0.1 else 0.05)"
  using assms by (simp add: calculate_competitive_adjustment_def Let_def)


theorem competitive_adjustment_when_full_witness:
  "find_competitors ((CompetitivePricingModel_init 10)
      \<lparr>current_prices := [1 \<mapsto> 12, 2 \<mapsto> 10], price_history := [1 \<mapsto> [10, 12], 2 \<mapsto> [10]],
       locations := [(1, \<lparr>latitude = 0, longitude = 0\<rparr>), (2, \<lparr>latitude = 0, longitude = 1 / 1000\<rparr>)]\<rparr>) 1 \<noteq> []
   \<and> (50::int) \<le> 50
   \<and> calculate_competitive_adjustment ((CompetitivePricingModel_init 10)
      \<lparr>current_prices := [1 \<mapsto> 12, 2 \<mapsto> 10], price_history := [1 \<mapsto> [10, 12], 2 \<mapsto> [10]],
       locations := [(1, \<lparr>latitude = 0, longitude = 0\<rparr>), (2, \<lparr>latitude = 0, longitude = 1 / 1000\<rparr>)]\<rparr>) 1 50 50 = - 0.1
   \<and> find_competitors ((CompetitivePricingModel_init 10)
      \<lparr>current_prices := [1 \<mapsto> 12, 2 \<mapsto> 10], price_history := [1 \<mapsto> [10, 12], 2 \<mapsto> [10]],
       locations := [(1, \<lparr>latitude = 0, longitude = 0\<rparr>), (2, \<lparr>latitude = 0, longitude = 1 / 1000\<rparr>)]\<rparr>) 2 \<noteq> []
   \<and> calculate_competitive_adjustment ((CompetitivePricingModel_init 10)
      \<lparr>current_prices := [1 \<mapsto> 12, 2 \<mapsto> 10], price_history := [1 \<mapsto> [10, 12], 2 \<mapsto> [10]],
       locations := [(1, \<lparr>latitude = 0, longitude = 0\<rparr>), (2, \<lparr>latitude = 0, longitude = 1 / 1000\<rparr>)]\<rparr>) 2 50 50 = 0.05"
proof -
  let ?m = "(CompetitivePricingModel_init 10)
      \<lparr>current_prices := [1 \<mapsto> 12, 2 \<mapsto> 10], price_history := [1 \<mapsto> [10, 12], 2 \<mapsto> [10]],
       locations := [(1, \<lparr>latitude = 0, longitude = 0\<rparr>), (2, \<lparr>latitude = 0, longitude = 1 / 1000\<rparr>)]\<rparr>"
  have fc1: "find_competitors ?m 1 = [\<lparr>comp_space_id = 2, comp_distance = 1 / 1000, comp_price = 10\<rparr>]"
    and fc2: "find_competitors ?m 2 = [\<lparr>comp_space_id = 1, comp_distance = 1 / 1000, comp_price = 12\<rparr>]"
    by (simp_all add: find_competitors_def CompetitivePricingModel_init_def calculate_distance_def
          get_current_price_def real_sqrt_divide)
  have cur: "get_current_price ?m 1 = 12" "get_current_price ?m 2 = 10"
    by (simp_all add: get_current_price_def)
  have ne: "find_competitors ?m 1 \<noteq> []" "find_competitors ?m 2 \<noteq> []"
    by (simp_all add: fc1 fc2)
  have full: "(50::int) \<le> 50" by simp
  show ?thesis
    using ne full competitive_adjustment_when_full [OF ne(1) full]
      competitive_adjustment_when_full [OF ne(2) full]
    by (simp add: fc1 fc2 cur)
qed

section \<open>The update without competitors\<close>

lemma get_current_price_vivify: "get_current_price (vivify m x) y = get_current_price m y"
  by (simp add: get_current_price_def vivify_def split: option.splits)

lemma vivify_demand_fields:
  "beta (vivify m x) = beta m" "gamma (vivify m x) = gamma m" "delta (vivify m x) = delta m"
  "epsilon (vivify m x) = epsilon m" "lambda_param (vivify m x) = lambda_param m"
  by (simp_all add: vivify_def split: option.splits)

lemma vivify_more_fields:
  "locations (vivify m x) = locations m" "competition_radius (vivify m x) = competition_radius m"
  "competition_weight (vivify m x) = competition_weight m" "demand_weight (vivify m x) = demand_weight m"
  by (simp_all add: vivify_def split: option.splits)

lemma scan_locations_vivify:
  "scan_locations (vivify m x) y cur locs = scan_locations m y cur locs"
  by (simp add: scan_locations_eq get_current_price_vivify vivify_more_fields)

lemma find_competitors_vivify: "find_competitors (vivify m x) y = find_competitors m y"
  by (simp add: find_competitors_def scan_locations_vivify vivify_more_fields cong: option.case_cong)

lemma calculate_competitive_adjustment_vivify:
  "calculate_competitive_adjustment (vivify m x) y oc ca = calculate_competitive_adjustment m y oc ca"
  by (simp add: calculate_competitive_adjustment_def Let_def find_competitors_vivify
        get_current_price_vivify)

lemma demand_calculate_demand_vivify:
  "demand_calculate_demand (vivify m x) occ q t s w = demand_calculate_demand m occ q t s w"
  by (simp add: demand_calculate_demand_def vivify_fields vivify_demand_fields)

lemma competitive_calculate_demand_vivify:
  "competitive_calculate_demand (vivify m x) occ q t s w = competitive_calculate_demand m occ q t s w"
  by (simp add: competitive_calculate_demand_def vivify_fields vivify_demand_fields)

lemma tanh_lower:
  fixes d :: real
  assumes "- (1 / 5) \<le> d"
  shows "- (1 / 4) \<le> tanh d"
proof -
  have u: "3 / 5 \<le> exp (- (2 / 5) :: real)"
    using exp_ge_add_one_self [of "- (2 / 5) :: real"] by simp
  have "tanh (1 / 5 :: real) = (1 - exp (- (2 / 5))) / (1 + exp (- (2 / 5)))"
    by (simp add: tanh_real_altdef)
  also have "\<dots> \<le> 1 / 4"
    using u by (simp add: field_simps add_pos_pos)
  finally have "- (1 / 4) \<le> - tanh (1 / 5 :: real)" by simp
  moreover have "tanh (- (1 / 5)) \<le> tanh d"
    using assms by (simp only: tanh_real_le_iff)
  ultimately show ?thesis by simp
qed


lemma competitive_update_price_unfold:
  "competitive_update_price m x occ q t s w oc ca =
     record_price (vivify m x) x
       (max (base_price m * 0.5)
          (min (demand_weight m * (base_price m * (1 + lambda_param m
                   * competitive_calculate_demand m occ q t s w))
                + competition_weight m * (get_current_price m x
                   * (1 + calculate_competitive_adjustment m x oc ca)))
             (base_price m * 2.0)))"
  unfolding competitive_update_price_def Let_def vivify_current vivify_fields option.case
    vivify_demand_fields vivify_more_fields competitive_calculate_demand_vivify
    calculate_competitive_adjustment_vivify
  by (rule refl)

lemma demand_update_price_unfold:
  "demand_update_price m x occ q t s w =
     record_price (vivify m x) x
       (max (base_price m * 0.5)
          (min (base_price m * (1 + lambda_param m * tanh (demand_calculate_demand m occ q t s w)))
             (base_price m * 2.0)))"
  unfolding demand_update_price_def Let_def vivify_fields vivify_demand_fields
    demand_calculate_demand_vivify normalize_demand_def
  by (rule refl)

lemma ledger_write_returns:
  assumes "ledger_entry_ok m x"
  shows "fst (record_price (vivify m x) x p) = Inr p"
proof -
  obtain h where "price_history (vivify m x) x = Some h"
    using vivify_history [OF assms] by blast
  then show ?thesis by (rule record_price_returns)
qed

lemma init_parameters_values:
  assumes "init_parameters m"
  shows "alpha m = 0.6" "beta m = 0.3" "gamma m = 0.2" "delta m = 0.4" "epsilon m = 0.1"
    "lambda_param m = 0.8" "competition_weight m = 0.3" "demand_weight m = 0.7"
  using assms unfolding init_parameters_def by blast+

lemma competitive_demand_lower:
  assumes "init_parameters m" "0 \<le> occupancy_rate" "0 \<le> queue_length" "traffic_level \<le> 10"
    "0 < vehicle_weight"
  shows "- (1 / 4) \<le> competitive_calculate_demand m occupancy_rate queue_length traffic_level
                        is_special_day vehicle_weight"
proof -
  let ?nq = "min (real_of_int queue_length / 20.0) 1.0"
  let ?nt = "(real_of_int traffic_level - 1) / 9.0"
  let ?sd = "if is_special_day then 1.0 else 0.0 :: real"
  have nq: "0 \<le> ?nq" using assms(3) by simp
  have nt: "?nt \<le> 1" using assms(4) by simp
  have sd: "0 \<le> ?sd" by simp
  have "- (1 / 5) \<le> alpha m * occupancy_rate + beta m * ?nq - gamma m * ?nt + delta m * ?sd
                      + epsilon m * vehicle_weight"
    unfolding init_parameters_values [OF assms(1)] using nq nt sd assms(2,5) by linarith
  then have "- (1 / 4) \<le> tanh (alpha m * occupancy_rate + beta m * ?nq - gamma m * ?nt
                              + delta m * ?sd + epsilon m * vehicle_weight)"
    by (rule tanh_lower)
  then show ?thesis
    unfolding competitive_calculate_demand_def Let_def .
qed

lemma competitive_demand_upper:
  "competitive_calculate_demand m occupancy_rate queue_length traffic_level is_special_day
     vehicle_weight < 1"
  by (simp add: competitive_calculate_demand_def Let_def tanh_real_lt_1)

lemma blend_within_bounds:
  fixes b t cur :: real
  assumes "b * 0.5 \<le> cur" "cur \<le> b * 2.0" "- (1 / 4) \<le> t" "t < 1"
  shows "b * 0.5 \<le> 0.7 * (b * (1 + 0.8 * t)) + 0.3 * cur"
    and "0.7 * (b * (1 + 0.8 * t)) + 0.3 * cur \<le> b * 2.0"
proof -
  define s where "s = b * t"
  define v where "v = 0.7 * (b * (1 + 0.8 * t)) + 0.3 * cur"
  from assms(1,2) have b: "0 \<le> b" by simp
  have "b * (- (1 / 4)) \<le> b * t" using assms(3) b by (rule mult_left_mono)
  then have lo: "- (b / 4) \<le> s" by (simp add: s_def)
  have "b * t \<le> b * 1" using assms(4) b by (intro mult_left_mono) simp_all
  then have hi: "s \<le> b" by (simp add: s_def)
  have eq: "v = 0.7 * b + 0.56 * s + 0.3 * cur"
    by (simp add: v_def s_def algebra_simps)
  have "b * 0.5 \<le> v" using eq lo b assms(1) by simp
  moreover have "v \<le> b * 2.0" using eq hi b assms(2) by simp
  ultimately show "b * 0.5 \<le> 0.7 * (b * (1 + 0.8 * t)) + 0.3 * cur"
    and "0.7 * (b * (1 + 0.8 * t)) + 0.3 * cur \<le> b * 2.0"
    by (simp_all only: v_def)
qed

text \<open>
  Claim C3. When \<^verbatim>\<open>find_competitors\<close> returns the empty list,
  \<^verbatim>\<open>calculate_competitive_adjustment\<close> returns 0 and \<^verbatim>\<open>update_price\<close> returns exactly
  \<open>demand_weight * demand_price + competition_weight * current_price\<close>, with
  \<open>demand_price = base_price * (1 + lambda_param * tanh demand)\<close> and \<open>current_price\<close> the
  unit's price before the call: the final clamp leaves the value as it is. The parameters
  are those of the constructor, the stored price is within \<open>[base_price * 0.5, base_price * 2.0]\<close>,
  the occupancy rate and the queue length are not negative, the traffic level is at most
  10 and the vehicle weight is positive (the bounds \<open>occupancy_rate \<le> 1\<close> and
  \<open>traffic_level \<ge> 1\<close> are not needed).
\<close>

theorem competitive_update_without_competitors:
  assumes none: "find_competitors m x = []"
    and params: "init_parameters m"
    and inputs: "0 \<le> occupancy_rate" "0 \<le> queue_length" "traffic_level \<le> 10"
      "0 < vehicle_weight"
    and price: "base_price m * 0.5 \<le> get_current_price m x"
      "get_current_price m x \<le> base_price m * 2.0"
    and ok: "ledger_entry_ok m x"
  shows "calculate_competitive_adjustment m x occupancy capacity = 0.0
       \<and> fst (competitive_update_price m x occupancy_rate queue_length traffic_level
                is_special_day vehicle_weight occupancy capacity)
           = Inr (demand_weight m
                    * (base_price m * (1 + lambda_param m
                         * tanh (alpha m * occupancy_rate
                                 + beta m * min (real_of_int queue_length / 20.0) 1.0
                                 - gamma m * ((real_of_int traffic_level - 1) / 9.0)
                                 + delta m * (if is_special_day then 1.0 else 0.0)
                                 + epsilon m * vehicle_weight)))
                  + competition_weight m * get_current_price m x)"
proof
  show adj: "calculate_competitive_adjustment m x occupancy capacity = 0.0"
    using none by (simp add: calculate_competitive_adjustment_def)
  let ?t = "competitive_calculate_demand m occupancy_rate queue_length traffic_level
              is_special_day vehicle_weight"
  let ?v = "demand_weight m * (base_price m * (1 + lambda_param m * ?t))
            + competition_weight m * get_current_price m x"
  have t: "- (1 / 4) \<le> ?t" "?t < 1"
    using competitive_demand_lower [OF params inputs] competitive_demand_upper by blast+
  have v: "?v = 0.7 * (base_price m * (1 + 0.8 * ?t)) + 0.3 * get_current_price m x"
    unfolding init_parameters_values [OF params] by (rule refl)
  have "base_price m * 0.5 \<le> ?v" "?v \<le> base_price m * 2.0"
    unfolding v using blend_within_bounds [OF price t] by blast+
  then have clamp: "max (base_price m * 0.5) (min ?v (base_price m * 2.0)) = ?v"
    by (simp add: max_def min_def)
  have "competitive_update_price m x occupancy_rate queue_length traffic_level
                is_special_day vehicle_weight occupancy capacity
        = record_price (vivify m x) x ?v"
    unfolding competitive_update_price_unfold adj using clamp by simp
  then have "fst (competitive_update_price m x occupancy_rate queue_length traffic_level
                is_special_day vehicle_weight occupancy capacity) = Inr ?v"
    using ledger_write_returns [OF ok] by simp
  then show "fst (competitive_update_price m x occupancy_rate queue_length traffic_level
                is_special_day vehicle_weight occupancy capacity)
           = Inr (demand_weight m
                    * (base_price m * (1 + lambda_param m
                         * tanh (alpha m * occupancy_rate
                                 + beta m * min (real_of_int queue_length / 20.0) 1.0
                                 - gamma m * ((real_of_int traffic_level - 1) / 9.0)
                                 + delta m * (if is_special_day then 1.0 else 0.0)
                                 + epsilon m * vehicle_weight)))
                  + competition_weight m * get_current_price m x)"
    by (simp add: competitive_calculate_demand_def Let_def)
qed


theorem competitive_update_without_competitors_witness:
  "find_competitors (CompetitivePricingModel_init 10) 1 = []
   \<and> init_parameters (CompetitivePricingModel_init 10)
   \<and> (0::real) \<le> 1 \<and> (0::int) \<le> 20 \<and> (10::int) \<le> 10 \<and> (0::real) < 1
   \<and> base_price (CompetitivePricingModel_init 10) * 0.5
         \<le> get_current_price (CompetitivePricingModel_init 10) 1
   \<and> get_current_price (CompetitivePricingModel_init 10) 1
         \<le> base_price (CompetitivePricingModel_init 10) * 2.0
   \<and> ledger_entry_ok (CompetitivePricingModel_init 10) 1
   \<and> calculate_competitive_adjustment (CompetitivePricingModel_init 10) 1 50 50 = 0
   \<and> fst (competitive_update_price (CompetitivePricingModel_init 10) 1 1 20 10 True 1 50 50)
       = Inr (7 / 10 * (10 * (1 + 8 / 10 * tanh (6 / 5))) + 3 / 10 * 10)"
proof -
  let ?m = "CompetitivePricingModel_init 10"
  have none: "find_competitors ?m 1 = []"
    by (simp add: find_competitors_def CompetitivePricingModel_init_def)
  have params: "init_parameters ?m"
    by (simp add: init_parameters_def CompetitivePricingModel_init_def)
  have inputs: "(0::real) \<le> 1" "(0::int) \<le> 20" "(10::int) \<le> 10" "(0::real) < 1"
    by simp_all
  have cur: "get_current_price ?m 1 = 10" and base: "base_price ?m = 10"
    by (simp_all add: get_current_price_def CompetitivePricingModel_init_def)
  have price: "base_price ?m * 0.5 \<le> get_current_price ?m 1"
    "get_current_price ?m 1 \<le> base_price ?m * 2.0"
    by (simp_all add: cur base)
  have ok: "ledger_entry_ok ?m 1" by (rule init_entry_ok)
  have fields: "alpha ?m = 6 / 10" "beta ?m = 3 / 10" "gamma ?m = 2 / 10" "delta ?m = 4 / 10"
    "epsilon ?m = 1 / 10" "lambda_param ?m = 8 / 10" "competition_weight ?m = 3 / 10"
    "demand_weight ?m = 7 / 10"
    by (simp_all add: CompetitivePricingModel_init_def)
  have demand: "6 / 10 * 1 + 3 / 10 * min (real_of_int 20 / 20.0) 1.0
      - 2 / 10 * ((real_of_int 10 - 1) / 9.0) + 4 / 10 * (if True then 1.0 else 0.0) + 1 / 10 * 1
      = (6 / 5 :: real)"
    by simp
  note inst = competitive_update_without_competitors [OF none params inputs price ok,
      where occupancy = 50 and capacity = 50 and is_special_day = True]
  from inst have adj: "calculate_competitive_adjustment ?m 1 50 50 = 0" by simp
  from inst have res: "fst (competitive_update_price ?m 1 1 20 10 True 1 50 50)
       = Inr (7 / 10 * (10 * (1 + 8 / 10 * tanh (6 / 5))) + 3 / 10 * 10)"
    unfolding fields cur base demand by blast
  show ?thesis
    using none params price ok adj res by simp
qed

section \<open>The demand price and the ledger\<close>

lemma demand_calculate_demand_ledger:
  "demand_calculate_demand (m\<lparr>current_prices := cp, price_history := ph\<rparr>) occ q t s w
     = demand_calculate_demand m occ q t s w"
  by (simp add: demand_calculate_demand_def)

text \<open>
  Claim C5. The price that \<^verbatim>\<open>DemandBasedModel.update_price\<close> returns depends on the feature
  inputs, the base price and the parameters only: for an object in any two states of its
  two dictionaries and for any two units, calls with the same feature inputs return the
  same price (and do return one, each unit's ledger entry being consistent).
\<close>

theorem demand_update_price_memoryless:
  assumes "ledger_entry_ok (m\<lparr>current_prices := cp1, price_history := ph1\<rparr>) x1"
    and "ledger_entry_ok (m\<lparr>current_prices := cp2, price_history := ph2\<rparr>) x2"
  shows "fst (demand_update_price (m\<lparr>current_prices := cp1, price_history := ph1\<rparr>) x1
                occupancy_rate queue_length traffic_level is_special_day vehicle_weight)
         = fst (demand_update_price (m\<lparr>current_prices := cp2, price_history := ph2\<rparr>) x2
                occupancy_rate queue_length traffic_level is_special_day vehicle_weight)
       \<and> (\<exists>p. fst (demand_update_price (m\<lparr>current_prices := cp1, price_history := ph1\<rparr>) x1
                occupancy_rate queue_length traffic_level is_special_day vehicle_weight) = Inr p)"
proof -
  let ?p = "max (base_price m * 0.5)
          (min (base_price m * (1 + lambda_param m * tanh (demand_calculate_demand m occupancy_rate
                   queue_length traffic_level is_special_day vehicle_weight)))
             (base_price m * 2.0))"
  have "fst (demand_update_price (m\<lparr>current_prices := cp1, price_history := ph1\<rparr>) x1
                occupancy_rate queue_length traffic_level is_special_day vehicle_weight) = Inr ?p"
    unfolding demand_update_price_unfold demand_calculate_demand_ledger
    using ledger_write_returns [OF assms(1)] by simp
  moreover have "fst (demand_update_price (m\<lparr>current_prices := cp2, price_history := ph2\<rparr>) x2
                occupancy_rate queue_length traffic_level is_special_day vehicle_weight) = Inr ?p"
    unfolding demand_update_price_unfold demand_calculate_demand_ledger
    using ledger_write_returns [OF assms(2)] by simp
  ultimately show ?thesis by simp
qed

theorem demand_update_price_memoryless_witness:
  "ledger_entry_ok ((DemandBasedModel_init 10)\<lparr>current_prices := Map.empty, price_history := Map.empty\<rparr>) 1
   \<and> ledger_entry_ok ((DemandBasedModel_init 10)
         \<lparr>current_prices := [2 \<mapsto> 15], price_history := [2 \<mapsto> [10, 15]]\<rparr>) 2
   \<and> fst (demand_update_price
             ((DemandBasedModel_init 10)\<lparr>current_prices := Map.empty, price_history := Map.empty\<rparr>) 1
             1 20 10 True 1)
       = fst (demand_update_price
             ((DemandBasedModel_init 10)\<lparr>current_prices := [2 \<mapsto> 15], price_history := [2 \<mapsto> [10, 15]]\<rparr>) 2
             1 20 10 True 1)"
proof -
  have ok1: "ledger_entry_ok ((DemandBasedModel_init 10)
      \<lparr>current_prices := Map.empty, price_history := Map.empty\<rparr>) 1"
    by (simp add: ledger_entry_ok_def)
  have ok2: "ledger_entry_ok ((DemandBasedModel_init 10)
         \<lparr>current_prices := [2 \<mapsto> 15], price_history := [2 \<mapsto> [10, 15]]\<rparr>) 2"
    by (simp add: ledger_entry_ok_def)
  show ?thesis
    using ok1 ok2 demand_update_price_memoryless [OF ok1 ok2] by blast
qed


section \<open>Soft-bound dampening of the baseline model\<close>

lemma foldl_alpha:
  assumes step: "\<And>m c. \<exists>v. step m c = snd (record_price (vivify m (fst c)) (fst c) v)"
  shows "alpha (foldl step m cs) = alpha m"
proof (induction cs arbitrary: m)
  case Nil
  then show ?case by simp
next
  case (Cons c cs)
  obtain v where v: "step m c = snd (record_price (vivify m (fst c)) (fst c) v)"
    using step by blast
  then show ?case by (simp add: Cons.IH record_price_fields vivify_fields)
qed

lemma foldl_entry_ok:
  assumes step: "\<And>m c. \<exists>v. step m c = snd (record_price (vivify m (fst c)) (fst c) v)"
  shows "ledger_entry_ok m x \<Longrightarrow> ledger_entry_ok (foldl step m cs) x"
proof (induction cs arbitrary: m)
  case Nil
  then show ?case by simp
next
  case (Cons c cs)
  obtain v where v: "step m c = snd (record_price (vivify m (fst c)) (fst c) v)"
    using step by blast
  have "ledger_entry_ok (step m c) x"
    unfolding v using Cons.prems by (rule ledger_write_entry_ok)
  then show ?case by (simp add: Cons.IH)
qed

lemma baseline_update_price_unfold:
  "baseline_update_price m x occupancy_rate =
     record_price (vivify m x) x
       (max (base_price m * 0.5)
          (min (if get_current_price m x + alpha m * occupancy_rate < base_price m * 0.5
                then base_price m * 0.5
                     + (get_current_price m x + alpha m * occupancy_rate - base_price m * 0.5) * 0.1
                else if get_current_price m x + alpha m * occupancy_rate > base_price m * 2.0
                then base_price m * 2.0
                     - (get_current_price m x + alpha m * occupancy_rate - base_price m * 2.0) * 0.1
                else get_current_price m x + alpha m * occupancy_rate)
             (base_price m * 2.0)))"
  unfolding baseline_update_price_def Let_def vivify_current vivify_fields option.case
  by (rule refl)

text \<open>
  What \<^verbatim>\<open>BaselineLinearModel.update_price\<close> hands to its final clamp, with
  \<open>new_price = current_price + alpha * occupancy_rate\<close> and a base price that is not negative:
  below \<open>min_price = base_price * 0.5\<close> it is \<open>min_price + (new_price - min_price) * 0.1\<close>,
  above \<open>max_price = base_price * 2.0\<close> it is \<open>max_price - (new_price - max_price) * 0.1\<close>.
  The two branches differ in the sign of the tenth of the excess.
\<close>

lemma baseline_soft_bound:
  assumes "0 \<le> base_price m" "ledger_entry_ok m x"
  shows "let new_price = get_current_price m x + alpha m * occupancy_rate;
             min_price = base_price m * 0.5;
             max_price = base_price m * 2.0
         in (new_price < min_price \<longrightarrow>
               fst (baseline_update_price m x occupancy_rate)
                 = Inr (max min_price (min (min_price + (new_price - min_price) * 0.1) max_price)))
          \<and> (new_price > max_price \<longrightarrow>
               fst (baseline_update_price m x occupancy_rate)
                 = Inr (max min_price (min (max_price - (new_price - max_price) * 0.1) max_price)))"
proof -
  let ?new = "get_current_price m x + alpha m * occupancy_rate"
  have ret: "\<And>p. fst (record_price (vivify m x) x p) = Inr p"
    using ledger_write_returns [OF assms(2)] .
  have low: "?new < base_price m * 0.5 \<Longrightarrow>
      fst (baseline_update_price m x occupancy_rate)
        = Inr (max (base_price m * 0.5)
                 (min (base_price m * 0.5 + (?new - base_price m * 0.5) * 0.1) (base_price m * 2.0)))"
    unfolding baseline_update_price_unfold ret by (simp only: if_True)
  have high: "?new > base_price m * 2.0 \<Longrightarrow>
      fst (baseline_update_price m x occupancy_rate)
        = Inr (max (base_price m * 0.5)
                 (min (base_price m * 2.0 - (?new - base_price m * 2.0) * 0.1) (base_price m * 2.0)))"
  proof -
    assume h: "?new > base_price m * 2.0"
    with assms(1) have "\<not> ?new < base_price m * 0.5" by simp
    with h show ?thesis
      unfolding baseline_update_price_unfold ret by (simp only: if_True if_False)
  qed
  show ?thesis
    unfolding Let_def using low high by blast
qed


lemma baseline_soft_bound_witness:
  "0 \<le> base_price (BaselineLinearModel_init 10 12)
   \<and> ledger_entry_ok (BaselineLinearModel_init 10 12) 1
   \<and> get_current_price (BaselineLinearModel_init 10 12) 1 + alpha (BaselineLinearModel_init 10 12) * 1
       > base_price (BaselineLinearModel_init 10 12) * 2.0
   \<and> fst (baseline_update_price (BaselineLinearModel_init 10 12) 1 1) = Inr (99 / 5)
   \<and> 0 \<le> base_price (BaselineLinearModel_init 10 (- 12))
   \<and> ledger_entry_ok (BaselineLinearModel_init 10 (- 12)) 1
   \<and> get_current_price (BaselineLinearModel_init 10 (- 12)) 1
         + alpha (BaselineLinearModel_init 10 (- 12)) * 1
       < base_price (BaselineLinearModel_init 10 (- 12)) * 0.5
   \<and> fst (baseline_update_price (BaselineLinearModel_init 10 (- 12)) 1 1) = Inr 5"
proof -
  have f: "base_price (BaselineLinearModel_init 10 12) = 10"
    "alpha (BaselineLinearModel_init 10 12) = 12"
    "get_current_price (BaselineLinearModel_init 10 12) 1 = 10"
    "base_price (BaselineLinearModel_init 10 (- 12)) = 10"
    "alpha (BaselineLinearModel_init 10 (- 12)) = - 12"
    "get_current_price (BaselineLinearModel_init 10 (- 12)) 1 = 10"
    by (simp_all add: BaselineLinearModel_init_def get_current_price_def)
  have b: "0 \<le> base_price (BaselineLinearModel_init 10 12)"
    "0 \<le> base_price (BaselineLinearModel_init 10 (- 12))"
    by (simp_all add: f)
  have ok: "ledger_entry_ok (BaselineLinearModel_init 10 12) 1"
    "ledger_entry_ok (BaselineLinearModel_init 10 (- 12)) 1"
    by (rule init_entry_ok)+
  show ?thesis
    using b ok baseline_soft_bound [OF b(1) ok(1), of 1] baseline_soft_bound [OF b(2) ok(2), of 1]
    by (simp add: Let_def f)
qed

text \<open>
  Claim C2. The claim has both bounds dampened alike, a value beyond a bound becoming the
  bound plus a tenth of the excess, as the \<^verbatim>\<open>if\<close> branch for the lower bound does. The
  \<^verbatim>\<open>elif\<close> branch for the upper bound subtracts the tenth instead. On
  \<^verbatim>\<open>BaselineLinearModel(base_price=10, alpha=0.5)\<close>, twenty updates of unit 1 at occupancy rate 1
  bring its price to 20; the next one computes 20.5, above the maximum 20, and returns
  \<open>20 - 0.5 * 0.1 = 19.95\<close>, where the dampening of the claim gives 20.05, which the clamp
  turns into 20.
\<close>

theorem baseline_upper_dampening_divergence:
  "get_current_price
     (foldl baseline_call_step (BaselineLinearModel_init 10 0.5) (replicate 20 (1, 1))) 1 = 20
   \<and> fst (baseline_update_price
            (foldl baseline_call_step (BaselineLinearModel_init 10 0.5) (replicate 20 (1, 1))) 1 1)
       = Inr (399 / 20)
   \<and> fst (baseline_update_price
            (foldl baseline_call_step (BaselineLinearModel_init 10 0.5) (replicate 20 (1, 1))) 1 1)
       \<noteq> Inr (max (10 * 0.5) (min (claimed_dampening (10 * 0.5) (10 * 2.0) (20 + 0.5 * 1)) (10 * 2.0)))"
proof -
  let ?m = "foldl baseline_call_step (BaselineLinearModel_init 10 0.5) (replicate 20 (1, 1))"
  have cur: "get_current_price ?m 1 = 20"
    by (simp add: eval_nat_numeral baseline_update_price_def vivify_def record_price_def
          BaselineLinearModel_init_def Let_def get_current_price_def)
  have fields: "base_price ?m = 10" "alpha ?m = 1 / 2"
    using foldl_base_price [of baseline_call_step, OF baseline_call_step_eq]
      foldl_alpha [of baseline_call_step, OF baseline_call_step_eq]
    by (simp_all add: BaselineLinearModel_init_def)
  have ok: "ledger_entry_ok ?m 1"
    using foldl_entry_ok [of baseline_call_step, OF baseline_call_step_eq] init_entry_ok(1)
    by blast
  have res: "fst (baseline_update_price ?m 1 1) = Inr (399 / 20)"
    unfolding baseline_update_price_unfold cur fields ledger_write_returns [OF ok] by simp
  have claimed: "max (10 * 0.5) (min (claimed_dampening (10 * 0.5) (10 * 2.0) (20 + 0.5 * 1)) (10 * 2.0))
      = (20 :: real)"
    by (simp add: claimed_dampening_def)
  show ?thesis
    unfolding claimed using cur res by simp
qed

section \<open>Inputs outside the precondition\<close>





end
